theory Spec2Isabelle
  imports Main
begin

section \<open>JavaScript values and objects\<close>

text \<open>
  The values that flow through \<^verbatim>\<open>MasterController.js\<close>: request sections, the value a
  controller resolves to, and the JSON bodies handed to the response. An object is the
  list of its own enumerable properties; a well-formed object has no key twice.
  Numbers are the integers the code uses (HTTP status codes).
\<close>

datatype jsval =
    JUndefined
  | JNull
  | JBool bool
  | JNum int
  | JStr string
  | JArr "jsval list"
  | JObj "(string \<times> jsval) list"

type_synonym obj = "(string \<times> jsval) list"

text \<open>
  Assigning a property: an existing key keeps its place and takes the new value, a new
  key goes to the end. The list is thus in order of assignment. JavaScript enumerates
  integer-like keys first, in ascending order, so for such keys the position in the list
  is not the position in the enumeration; the pairs are the same, and nothing below
  depends on the order.
\<close>

fun setProp :: "string \<Rightarrow> jsval \<Rightarrow> obj \<Rightarrow> obj" where
  "setProp k v [] = [(k, v)]"
| "setProp k v ((k', v') # ps) =
     (if k' = k then (k, v) # ps else (k', v') # setProp k v ps)"

text \<open>\<^verbatim>\<open>delete o.k\<close>\<close>

definition deleteProp :: "string \<Rightarrow> obj \<Rightarrow> obj" where
  "deleteProp k ps = filter (\<lambda>p. fst p \<noteq> k) ps"

text \<open>\<^verbatim>\<open>Object.keys(o)\<close>\<close>

definition keys :: "obj \<Rightarrow> string list" where
  "keys ps = map fst ps"

text \<open>Decimal spelling of an array index, the property key of an element.\<close>

function showNat :: "nat \<Rightarrow> string" where
  "showNat n =
     (if n < 10 then [char_of (48 + n)]
      else showNat (n div 10) @ [char_of (48 + n mod 10)])"
  by pat_completeness auto
termination
  by (relation "measure id") auto

declare showNat.simps [simp del]

text \<open>
  The own enumerable properties that an object spread \<^verbatim>\<open>{...x}\<close> copies: those of an
  object, the elements of an array and the characters of a string under their indices,
  and nothing for \<^verbatim>\<open>undefined\<close>, \<^verbatim>\<open>null\<close>, booleans and numbers.
\<close>

fun ownEnumerable :: "jsval \<Rightarrow> obj" where
  "ownEnumerable (JObj ps) = ps"
| "ownEnumerable (JArr xs) = zip (map showNat [0..<length xs]) xs"
| "ownEnumerable (JStr s) = zip (map showNat [0..<length s]) (map (\<lambda>c. JStr [c]) s)"
| "ownEnumerable JUndefined = []"
| "ownEnumerable JNull = []"
| "ownEnumerable (JBool b) = []"
| "ownEnumerable (JNum n) = []"

text \<open>One \<^verbatim>\<open>...source\<close> inside an object literal: every property of the source is
  assigned to the object under construction, in the source's order.\<close>

definition spread :: "obj \<Rightarrow> obj \<Rightarrow> obj" where
  "spread target source = fold (\<lambda>(k, v). setProp k v) source target"

datatype error = TypeError | Thrown jsval

text \<open>
  Reading a property \<^verbatim>\<open>x.k\<close>, as the handler does for \<^verbatim>\<open>response\<close> and \<^verbatim>\<open>status\<close>:
  a TypeError on \<^verbatim>\<open>undefined\<close> and \<^verbatim>\<open>null\<close>, the property of an object, and
  \<^verbatim>\<open>undefined\<close> where there is none (no built-in prototype defines either name).
\<close>

fun getProp :: "jsval \<Rightarrow> string \<Rightarrow> error + jsval" where
  "getProp JUndefined k = Inl TypeError"
| "getProp JNull k = Inl TypeError"
| "getProp (JObj ps) k = (case map_of ps k of Some v \<Rightarrow> Inr v | None \<Rightarrow> Inr JUndefined)"
| "getProp (JBool b) k = Inr JUndefined"
| "getProp (JNum n) k = Inr JUndefined"
| "getProp (JStr s) k = Inr JUndefined"
| "getProp (JArr xs) k = Inr JUndefined"

section \<open>The schema library and the request builder\<close>

text \<open>
  The schema library is third-party and \<^verbatim>\<open>RequestBuilder.js\<close> is not part of the
  code verified here, so both are parameters of the model. A schema is what its \<^verbatim>\<open>validate\<close>
  method answers for a value and an options object: no error, or an error whose
  \<^verbatim>\<open>details\<close> each carry a \<^verbatim>\<open>message\<close>. A request builder is the two properties
  \<^verbatim>\<open>joiValidator\<close> reads from it, \<^verbatim>\<open>get\<close> and \<^verbatim>\<open>payload\<close>. A payload type is one of the
  three that \<^verbatim>\<open>joiValidator\<close> compares with, or any other value.
\<close>

record ValidationOptions =
  abortEarly :: bool
  allowUnknown :: bool

datatype ValidationErrorItem = ValidationErrorItem (message: string)

datatype ValidationError = ValidationError (details: "ValidationErrorItem list")

datatype Schema =
  Schema (validate: "jsval \<Rightarrow> ValidationOptions \<Rightarrow> ValidationError option")

datatype PayloadType = PARAMS | QUERY | BODY | OtherPayloadType

record Payload =
  type :: PayloadType
  schema :: Schema

record RequestBuilder =
  get :: "Payload list"
  payload :: "Payload list"

section \<open>MasterController.joiValidator\<close>

text \<open>
  The error object \<^verbatim>\<open>joiErrors\<close> is local to \<^verbatim>\<open>joiValidator\<close>, and each of its properties
  is an array of messages for as long as it is there.

  \<^verbatim>\<open>joiErrors.k?.push(...msgs)\<close>: the messages go to the end of the array; nothing
  happens when the property is missing.
\<close>

definition push :: "string \<Rightarrow> string list \<Rightarrow> obj \<Rightarrow> obj" where
  "push k msgs joiErrors =
     (case map_of joiErrors k of
        Some (JArr xs) \<Rightarrow> setProp k (JArr (xs @ map JStr msgs)) joiErrors
      | _ \<Rightarrow> joiErrors)"

text \<open>\<^verbatim>\<open>if (joiErrors.k?.length === 0) delete joiErrors.k\<close>: an empty array is removed.\<close>

definition deleteIfEmpty :: "string \<Rightarrow> obj \<Rightarrow> obj" where
  "deleteIfEmpty k joiErrors =
     (case map_of joiErrors k of
        Some (JArr xs) \<Rightarrow> if length xs = 0 then deleteProp k joiErrors else joiErrors
      | _ \<Rightarrow> joiErrors)"

text \<open>The body of the \<^verbatim>\<open>forEach\<close> callback, for one payload rule.\<close>

definition validatePayload :: "jsval \<Rightarrow> jsval \<Rightarrow> jsval \<Rightarrow> Payload \<Rightarrow> obj \<Rightarrow> obj" where
  "validatePayload params query body p joiErrors =
     (if type p = PARAMS then
        (case Schema.validate (schema p) params \<lparr>abortEarly = False, allowUnknown = True\<rparr> of
           Some err \<Rightarrow> push ''param'' (map message (details err)) joiErrors
         | None \<Rightarrow> joiErrors)
      else if type p = QUERY then
        (case Schema.validate (schema p) query \<lparr>abortEarly = False, allowUnknown = True\<rparr> of
           Some err \<Rightarrow> push ''query'' (map message (details err)) joiErrors
         | None \<Rightarrow> joiErrors)
      else if type p = BODY then
        (case Schema.validate (schema p) body \<lparr>abortEarly = False, allowUnknown = True\<rparr> of
           Some err \<Rightarrow> push ''body'' (map message (details err)) joiErrors
         | None \<Rightarrow> joiErrors)
      else joiErrors)"

text \<open>The result is \<^verbatim>\<open>null\<close> (\<open>None\<close>) or the error object.\<close>

definition joiValidator :: "jsval \<Rightarrow> jsval \<Rightarrow> jsval \<Rightarrow> RequestBuilder \<Rightarrow> obj option" where
  "joiValidator params query body validationRules =
     (if length (get validationRules) = 0 then None
      else
        let joiErrors = [(''query'', JArr []), (''param'', JArr []), (''body'', JArr [])];
            joiErrors = fold (validatePayload params query body) (payload validationRules) joiErrors;
            joiErrors = deleteIfEmpty ''query'' joiErrors;
            joiErrors = deleteIfEmpty ''param'' joiErrors;
            joiErrors = deleteIfEmpty ''body'' joiErrors
        in if length (keys joiErrors) = 0 then None else Some joiErrors)"

section \<open>MasterController.handler\<close>

text \<open>
  A request, as the handler reads it: the four sections it names, and the own enumerable
  string-keyed properties of the request object, which \<^verbatim>\<open>...req\<close> copies. The sections
  are arbitrary values (a body may be \<^verbatim>\<open>undefined\<close>, an array or a string).
\<close>

record Request =
  params :: jsval
  query :: jsval
  body :: jsval
  headers :: jsval
  own :: obj

text \<open>An awaited promise resolves, rejects, or never settles.\<close>

datatype settled = Resolved jsval | Rejected error | Pending

text \<open>
  A controller class, as far as the handler uses it: what its static \<^verbatim>\<open>validate\<close>
  returns, and the \<^verbatim>\<open>restController\<close> method of its instances.
\<close>

record Controller =
  validate :: RequestBuilder
  restController :: "jsval \<Rightarrow> jsval \<Rightarrow> jsval \<Rightarrow> jsval \<Rightarrow> obj \<Rightarrow> settled"

text \<open>
  What a run of the async function does, statement by statement, and how it ends: a
  response sent with \<^verbatim>\<open>res.status(code).json(body)\<close>, a rejection that nothing inside
  the function catches (it reaches \<^verbatim>\<open>asyncHandler\<close>), or an await that never returns.
\<close>

datatype step =
    NewController
  | MergeAllData obj
  | CallValidate
  | CallJoiValidator jsval jsval jsval
  | CallRestController jsval jsval jsval jsval obj
  | ResStatus jsval
  | ResJson jsval

datatype outcome = Sent jsval jsval | Uncaught error | Hung

type_synonym run = "step list \<times> outcome"

text \<open>\<^verbatim>\<open>{ ...req.params, ...req.query, ...req.body, ...req.headers, ...req }\<close>\<close>

definition allData :: "Request \<Rightarrow> obj" where
  "allData req =
     spread (spread (spread (spread (spread []
       (ownEnumerable (params req)))
       (ownEnumerable (query req)))
       (ownEnumerable (body req)))
       (ownEnumerable (headers req)))
       (own req)"

text \<open>The body of the 400 response.\<close>

definition validationErrorBody :: "obj \<Rightarrow> jsval" where
  "validationErrorBody joiErrors =
     JObj [(''status'', JNum 400),
           (''message'', JStr ''Validation Error''),
           (''data'', JNull),
           (''errors'', JObj joiErrors)]"

text \<open>
  From \<^verbatim>\<open>const { response } = await controller.restController(...)\<close> to the end of the
  function, given what the call settled to and the steps so far.
\<close>

definition respond :: "step list \<Rightarrow> settled \<Rightarrow> run" where
  "respond steps result =
     (case result of
        Pending \<Rightarrow> (steps, Hung)
      | Rejected e \<Rightarrow> (steps, Uncaught e)
      | Resolved v \<Rightarrow>
          (case getProp v ''response'' of
             Inl e \<Rightarrow> (steps, Uncaught e)
           | Inr response \<Rightarrow>
               (case getProp response ''status'' of
                  Inl e \<Rightarrow> (steps, Uncaught e)
                | Inr status \<Rightarrow>
                    (steps @ [ResStatus status, ResJson response], Sent status response))))"

text \<open>The async function that \<^verbatim>\<open>handler\<close> passes to \<^verbatim>\<open>asyncHandler\<close>.\<close>

definition handlerBody :: "Controller \<Rightarrow> Request \<Rightarrow> run" where
  "handlerBody self req =
     (let steps = [NewController];
          data = allData req;
          steps = steps @ [MergeAllData data];
          validationRules = Controller.validate self;
          steps = steps @ [CallValidate];
          joiErrors = joiValidator (params req) (query req) (body req) validationRules;
          steps = steps @ [CallJoiValidator (params req) (query req) (body req)]
      in case joiErrors of
           Some errs \<Rightarrow>
             (steps @ [ResStatus (JNum 400), ResJson (validationErrorBody errs)],
              Sent (JNum 400) (validationErrorBody errs))
         | None \<Rightarrow>
             respond
               (steps @ [CallRestController (params req) (query req) (body req) (headers req) data])
               (restController self (params req) (query req) (body req) (headers req) data))"

text \<open>
  \<^verbatim>\<open>AsyncHandler.js\<close> is not part of the code verified here: the wrapper is a parameter, and
  \<^verbatim>\<open>handler\<close> is the wrapper applied to the async function of the invoking class.
\<close>

definition handler :: "((Request \<Rightarrow> run) \<Rightarrow> 'h) \<Rightarrow> Controller \<Rightarrow> 'h" where
  "handler asyncHandler self = asyncHandler (handlerBody self)"

section \<open>MasterController.get and MasterController.post\<close>

text \<open>
  The router belongs to the web framework. The model keeps the calls it has received,
  each with its path, its middlewares and its handler; \<^verbatim>\<open>router.get\<close> and
  \<^verbatim>\<open>router.post\<close> return the router. The two static methods carry the suffix
  \<open>_route\<close>, the name \<open>get\<close> being the request builder's property.
\<close>

datatype ('m, 'h) routerCall =
    RouterGet string "'m list" 'h
  | RouterPost string "'m list" 'h

definition get_route ::
  "((Request \<Rightarrow> run) \<Rightarrow> 'h) \<Rightarrow> Controller \<Rightarrow> ('m, 'h) routerCall list \<Rightarrow> string \<Rightarrow> 'm list
     \<Rightarrow> ('m, 'h) routerCall list" where
  "get_route asyncHandler self router path middlewares =
     router @ [RouterGet path middlewares (handler asyncHandler self)]"

definition post_route ::
  "((Request \<Rightarrow> run) \<Rightarrow> 'h) \<Rightarrow> Controller \<Rightarrow> ('m, 'h) routerCall list \<Rightarrow> string \<Rightarrow> 'm list
     \<Rightarrow> ('m, 'h) routerCall list" where
  "post_route asyncHandler self router path middlewares =
     router @ [RouterPost path middlewares (handler asyncHandler self)]"

section \<open>Notions used to state the properties\<close>

text \<open>
  What the schema library reports for one schema and one value under the options that
  \<^verbatim>\<open>joiValidator\<close> passes: the messages of the error's details, none when there is no
  error.
\<close>

definition libraryMessages :: "Schema \<Rightarrow> jsval \<Rightarrow> string list" where
  "libraryMessages s d =
     (case Schema.validate s d \<lparr>abortEarly = False, allowUnknown = True\<rparr> of
        None \<Rightarrow> []
      | Some err \<Rightarrow> map message (details err))"

text \<open>The messages of all rules of one type against one section, in rule order.\<close>

definition sectionMessages :: "PayloadType \<Rightarrow> jsval \<Rightarrow> Payload list \<Rightarrow> string list" where
  "sectionMessages t d rules =
     concat (map (\<lambda>p. libraryMessages (schema p) d) (filter (\<lambda>p. type p = t) rules))"

text \<open>A section's entry in the error object: absent when there is no message.\<close>

definition reported :: "string \<Rightarrow> string list \<Rightarrow> obj" where
  "reported k msgs = (if msgs = [] then [] else [(k, JArr (map JStr msgs))])"

text \<open>The error object while the rules are being checked, by its three message lists.\<close>

definition errorObject :: "string list \<Rightarrow> string list \<Rightarrow> string list \<Rightarrow> obj" where
  "errorObject mq mp mb =
     [(''query'', JArr (map JStr mq)), (''param'', JArr (map JStr mp)), (''body'', JArr (map JStr mb))]"

text \<open>The schema validation made for one rule, if any, and the key its messages go to.\<close>

definition performed :: "jsval \<Rightarrow> jsval \<Rightarrow> jsval \<Rightarrow> Payload \<Rightarrow> ValidationError option" where
  "performed ps q b p =
     (case type p of
        PARAMS \<Rightarrow> Schema.validate (schema p) ps \<lparr>abortEarly = False, allowUnknown = True\<rparr>
      | QUERY \<Rightarrow> Schema.validate (schema p) q \<lparr>abortEarly = False, allowUnknown = True\<rparr>
      | BODY \<Rightarrow> Schema.validate (schema p) b \<lparr>abortEarly = False, allowUnknown = True\<rparr>
      | OtherPayloadType \<Rightarrow> None)"

fun errorKey :: "PayloadType \<Rightarrow> string option" where
  "errorKey PARAMS = Some ''param''"
| "errorKey QUERY = Some ''query''"
| "errorKey BODY = Some ''body''"
| "errorKey OtherPayloadType = None"

text \<open>A rule whose schema answers, whatever the options, as the rule's schema does under
  \<^verbatim>\<open>{ abortEarly: false, allowUnknown: true }\<close>.\<close>

definition atJoiOptions :: "Payload \<Rightarrow> Payload" where
  "atJoiOptions p =
     p\<lparr>schema := Schema (\<lambda>d opts.
          Schema.validate (schema p) d \<lparr>abortEarly = False, allowUnknown = True\<rparr>)\<rparr>"

section \<open>Example inputs\<close>

text \<open>
  A small schema in the manner of the library: every key of \<open>required\<close> must be present;
  any other key is rejected unless unknown keys are allowed; with \<^verbatim>\<open>abortEarly\<close> only
  the first violation is reported. The rules are those of the example in the
  documentation of \<^verbatim>\<open>MasterController.validate\<close>.
\<close>

definition exampleSchema :: "string list \<Rightarrow> Schema" where
  "exampleSchema required =
     Schema (\<lambda>d opts.
       let missing = map (\<lambda>k. ValidationErrorItem (k @ '' is required''))
                       (filter (\<lambda>k. map_of (ownEnumerable d) k = None) required);
           unknown = (if allowUnknown opts then []
                      else map (\<lambda>k. ValidationErrorItem (k @ '' is not allowed''))
                             (filter (\<lambda>k. k \<notin> set required) (keys (ownEnumerable d))));
           items = missing @ unknown
       in if items = [] then None
          else Some (ValidationError (if abortEarly opts then take 1 items else items)))"

definition examplePayload :: "Payload list" where
  "examplePayload =
     [\<lparr>type = BODY, schema = exampleSchema [''email'', ''password'']\<rparr>,
      \<lparr>type = QUERY, schema = exampleSchema [''limit'', ''offset'']\<rparr>,
      \<lparr>type = PARAMS, schema = exampleSchema [''id'']\<rparr>]"

definition exampleRules :: RequestBuilder where
  "exampleRules = \<lparr>get = examplePayload, payload = examplePayload\<rparr>"


definition closedSchema :: "string list \<Rightarrow> Schema" where
  "closedSchema allowed =
     Schema (\<lambda>d opts.
       let items = map (\<lambda>k. ValidationErrorItem (k @ '' is not allowed''))
                     (filter (\<lambda>k. k \<notin> set allowed) (keys (ownEnumerable d)))
       in if items = [] then None else Some (ValidationError items))"

definition closedRules :: RequestBuilder where
  "closedRules =
     \<lparr>get = [\<lparr>type = PARAMS, schema = closedSchema [''id'']\<rparr>],
      payload = [\<lparr>type = PARAMS, schema = closedSchema [''id'']\<rparr>]\<rparr>"

text \<open>A request that breaks two rules, and one that breaks none.\<close>

definition exampleRequest :: Request where
  "exampleRequest =
     \<lparr>params = JObj [(''id'', JNum 7)],
      query = JObj [(''limit'', JNum 10), (''id'', JNum 8)],
      body = JObj [(''email'', JStr ''a@b.c''), (''limit'', JNum 11)],
      headers = JObj [(''host'', JStr ''localhost''), (''email'', JStr ''h'')],
      own = [(''params'', JObj [(''id'', JNum 7)]), (''host'', JStr ''proxy''), (''user'', JStr ''u'')]\<rparr>"

definition validRequest :: Request where
  "validRequest =
     \<lparr>params = JObj [(''id'', JNum 7)],
      query = JObj [(''limit'', JNum 10), (''offset'', JNum 0)],
      body = JObj [(''email'', JStr ''a@b.c''), (''password'', JStr ''12345678'')],
      headers = JObj [(''host'', JStr ''localhost'')],
      own = []\<rparr>"

text \<open>
  Two controller classes with the example rules: one resolves to a value with a
  \<^verbatim>\<open>response\<close> object, as the base \<^verbatim>\<open>restController\<close> does, the other throws.
\<close>

definition exampleController :: Controller where
  "exampleController =
     \<lparr>validate = exampleRules,
      restController = (\<lambda>p q b h d.
        Resolved (JObj [(''response'',
          JObj [(''status'', JNum 200), (''message'', JStr ''Success''), (''data'', JNull)])]))\<rparr>"

definition throwingController :: Controller where
  "throwingController =
     \<lparr>validate = exampleRules,
      restController = (\<lambda>p q b h d. Rejected (Thrown (JStr ''boom'')))\<rparr>"

section \<open>Objects and spreading\<close>

lemma showNat_neq_Nil: "showNat n \<noteq> []" "[] \<noteq> showNat n"
  by (subst showNat.simps, simp)+

lemma digit_inj: "a < 10 \<Longrightarrow> b < 10 \<Longrightarrow> char_of (48 + a :: nat) = char_of (48 + b) \<Longrightarrow> a = b"
  by (simp add: char_of_eq_iff take_bit_eq_mod)

lemma showNat_inj: "showNat n = showNat m \<Longrightarrow> n = m"
proof (induction n arbitrary: m rule: showNat.induct)
  case (1 n)
  show ?case
  proof (cases "n < 10")
    case small: True
    show ?thesis
    proof (cases "m < 10")
      case True
      with small "1.prems" show ?thesis
        by (simp add: showNat.simps [of n] showNat.simps [of m] digit_inj)
    next
      case False
      with small "1.prems" show ?thesis
        by (simp add: showNat.simps [of n] showNat.simps [of m] showNat_neq_Nil)
    qed
  next
    case big: False
    show ?thesis
    proof (cases "m < 10")
      case True
      with big "1.prems" show ?thesis
        by (simp add: showNat.simps [of n] showNat.simps [of m] showNat_neq_Nil)
    next
      case False
      with big "1.prems" have eq: "showNat (n div 10) = showNat (m div 10)"
        and dg: "char_of (48 + n mod 10) = char_of (48 + m mod 10)"
        by (simp_all add: showNat.simps [of n] showNat.simps [of m])
      from "1.IH" [OF big eq] have "n div 10 = m div 10" .
      moreover from dg have "n mod 10 = m mod 10"
        by (intro digit_inj) simp_all
      ultimately show ?thesis
        by (metis div_mult_mod_eq)
    qed
  qed
qed

lemma distinct_indices: "distinct (map showNat [0..<n])"
  by (simp add: distinct_map inj_on_def) (blast dest: showNat_inj)

lemma ownEnumerable_distinct:
  "(\<forall>ps. v \<noteq> JObj ps) \<Longrightarrow> distinct (keys (ownEnumerable v))"
  by (cases v) (simp_all add: keys_def distinct_indices)

lemma map_of_setProp: "map_of (setProp k v ps) = (map_of ps)(k \<mapsto> v)"
  by (induction ps) (auto simp: fun_eq_iff)

lemma keys_setProp: "set (keys (setProp k v ps)) = insert k (set (keys ps))"
  by (simp add: keys_def dom_map_of_conv_image_fst [symmetric] map_of_setProp)

lemma distinct_setProp: "distinct (keys ps) \<Longrightarrow> distinct (keys (setProp k v ps))"
proof (induction ps)
  case Nil
  show ?case by (simp add: keys_def)
next
  case (Cons p ps)
  obtain a b where p: "p = (a, b)" by (cases p)
  from Cons.prems p have a: "a \<notin> set (keys ps)" and rest: "distinct (keys ps)"
    by (simp_all add: keys_def)
  show ?case
  proof (cases "a = k")
    case True
    with a rest p show ?thesis by (simp add: keys_def)
  next
    case False
    have "keys (setProp k v (p # ps)) = a # keys (setProp k v ps)"
      using False p by (simp add: keys_def)
    moreover have "a \<notin> set (keys (setProp k v ps))"
      using False a by (simp add: keys_setProp)
    ultimately show ?thesis
      using Cons.IH [OF rest] by simp
  qed
qed

lemma distinct_spread: "distinct (keys target) \<Longrightarrow> distinct (keys (spread target source))"
  unfolding spread_def
  by (induction source arbitrary: target) (auto simp: distinct_setProp)

lemma map_of_spread:
  "distinct (keys source) \<Longrightarrow> map_of (spread target source) = map_of target ++ map_of source"
  unfolding spread_def
proof (induction source arbitrary: target)
  case Nil
  show ?case by simp
next
  case (Cons p source)
  obtain k v where p: "p = (k, v)" by (cases p)
  from Cons.prems p have fresh: "map_of source k = None" and rest: "distinct (keys source)"
    by (auto simp: keys_def map_of_eq_None_iff)
  have "map_of (fold (\<lambda>(k, v). setProp k v) source (setProp k v target)) =
        map_of (setProp k v target) ++ map_of source"
    by (rule Cons.IH [OF rest])
  also have "\<dots> = (map_of target)(k \<mapsto> v) ++ map_of source"
    by (simp only: map_of_setProp)
  also have "\<dots> = map_of target ++ map_of ((k, v) # source)"
    using fresh by (auto simp: fun_eq_iff map_add_def split: option.splits)
  finally have calc: "map_of (fold (\<lambda>(k, v). setProp k v) source (setProp k v target)) =
      map_of target ++ map_of ((k, v) # source)" .
  have step: "fold (\<lambda>(k, v). setProp k v) (p # source) target =
      fold (\<lambda>(k, v). setProp k v) source (setProp k v target)"
    by (simp add: p)
  show ?case
    unfolding step using calc by (simp only: p)
qed

lemma map_of_allData:
  assumes "distinct (keys (ownEnumerable (params req)))"
    and "distinct (keys (ownEnumerable (query req)))"
    and "distinct (keys (ownEnumerable (body req)))"
    and "distinct (keys (ownEnumerable (headers req)))"
    and "distinct (keys (own req))"
  shows "map_of (allData req) =
           map_of (ownEnumerable (params req)) ++ map_of (ownEnumerable (query req)) ++
           map_of (ownEnumerable (body req)) ++ map_of (ownEnumerable (headers req)) ++
           map_of (own req)"
  using assms by (simp add: allData_def map_of_spread)

lemma distinct_allData: "distinct (keys (allData req))"
  unfolding allData_def by (intro distinct_spread) (simp add: keys_def)

lemma keys_spread: "set (keys (spread target source)) = set (keys target) \<union> set (keys source)"
  unfolding spread_def
proof (induction source arbitrary: target)
  case Nil
  show ?case by (simp add: keys_def)
next
  case (Cons p source)
  obtain k v where p: "p = (k, v)" by (cases p)
  have "set (keys (p # source)) = insert k (set (keys source))"
    by (simp add: keys_def p)
  with Cons.IH [of "setProp k v target"] show ?case
    by (simp add: p keys_setProp)
qed

section \<open>What joiValidator computes\<close>

lemma sectionMessages_Nil [simp]: "sectionMessages t d [] = []"
  by (simp add: sectionMessages_def)

lemma sectionMessages_Cons:
  "sectionMessages t d (p # rules) =
     (if type p = t then libraryMessages (schema p) d else []) @ sectionMessages t d rules"
  by (simp add: sectionMessages_def)

lemma validatePayload_errorObject:
  "validatePayload ps q b p (errorObject mq mp mb) =
     errorObject (mq @ (if type p = QUERY then libraryMessages (schema p) q else []))
                 (mp @ (if type p = PARAMS then libraryMessages (schema p) ps else []))
                 (mb @ (if type p = BODY then libraryMessages (schema p) b else []))"
  by (cases "type p")
     (simp_all add: validatePayload_def errorObject_def push_def libraryMessages_def
        split: option.splits)

lemma fold_validatePayload:
  "fold (validatePayload ps q b) rules (errorObject mq mp mb) =
     errorObject (mq @ sectionMessages QUERY q rules)
                 (mp @ sectionMessages PARAMS ps rules)
                 (mb @ sectionMessages BODY b rules)"
proof (induction rules arbitrary: mq mp mb)
  case Nil
  show ?case by simp
next
  case (Cons p rules)
  show ?case
    by (simp only: fold_simps validatePayload_errorObject Cons.IH sectionMessages_Cons append_assoc)
qed

lemma deleteIfEmpty_all:
  "deleteIfEmpty ''body'' (deleteIfEmpty ''param'' (deleteIfEmpty ''query'' (errorObject mq mp mb))) =
     reported ''query'' mq @ reported ''param'' mp @ reported ''body'' mb"
  by (simp add: deleteIfEmpty_def deleteProp_def errorObject_def reported_def)

lemma joiValidator_eq:
  "joiValidator ps q b rules =
     (if get rules = [] then None
      else let errs = reported ''query'' (sectionMessages QUERY q (payload rules)) @
                      reported ''param'' (sectionMessages PARAMS ps (payload rules)) @
                      reported ''body'' (sectionMessages BODY b (payload rules))
           in if errs = [] then None else Some errs)"
proof -
  have start: "[(''query'', JArr []), (''param'', JArr []), (''body'', JArr [])] = errorObject [] [] []"
    by (simp add: errorObject_def)
  show ?thesis
    unfolding joiValidator_def Let_def start fold_validatePayload deleteIfEmpty_all
    by (simp add: keys_def)
qed

lemma map_of_reported:
  "map_of (reported k1 m1 @ reported k2 m2 @ reported k3 m3) k =
     (if k = k1 \<and> m1 \<noteq> [] then Some (JArr (map JStr m1))
      else if k = k2 \<and> m2 \<noteq> [] then Some (JArr (map JStr m2))
      else if k = k3 \<and> m3 \<noteq> [] then Some (JArr (map JStr m3))
      else None)"
  by (simp add: reported_def)



lemma reported_Nil_iff: "reported k msgs = [] \<longleftrightarrow> msgs = []"
  by (simp add: reported_def)



lemma joiValidator_Some:
  "joiValidator ps q b rules = Some errs \<Longrightarrow>
     errs = reported ''query'' (sectionMessages QUERY q (payload rules)) @
            reported ''param'' (sectionMessages PARAMS ps (payload rules)) @
            reported ''body'' (sectionMessages BODY b (payload rules))"
  by (simp add: joiValidator_eq Let_def split: if_splits)

lemma libraryMessages_atJoiOptions:
  "libraryMessages (schema (atJoiOptions p)) d = libraryMessages (schema p) d"
  by (simp add: libraryMessages_def atJoiOptions_def)

lemma sectionMessages_atJoiOptions:
  "sectionMessages t d (map atJoiOptions rules) = sectionMessages t d rules"
proof (induction rules)
  case Nil
  show ?case by simp
next
  case (Cons p rules)
  have "type (atJoiOptions p) = type p"
    by (simp add: atJoiOptions_def)
  with Cons show ?case
    by (simp add: sectionMessages_Cons libraryMessages_atJoiOptions)
qed

lemma sectionMessages_cong:
  assumes "\<forall>p \<in> set rules. type p = t \<longrightarrow>
      Schema.validate (schema p) d \<lparr>abortEarly = False, allowUnknown = True\<rparr> =
      Schema.validate (schema p) d' \<lparr>abortEarly = False, allowUnknown = True\<rparr>"
  shows "sectionMessages t d rules = sectionMessages t d' rules"
  using assms by (induction rules) (simp_all add: sectionMessages_Cons libraryMessages_def)

lemma performed_messages:
  assumes "p \<in> set rules" and "performed ps q b p = Some e" and "errorKey (type p) = Some key"
    and "i \<in> set (details e)"
  shows "message i \<in> set (sectionMessages (type p)
           (case type p of PARAMS \<Rightarrow> ps | QUERY \<Rightarrow> q | BODY \<Rightarrow> b | OtherPayloadType \<Rightarrow> JUndefined) rules)"
proof -
  have "libraryMessages (schema p)
          (case type p of PARAMS \<Rightarrow> ps | QUERY \<Rightarrow> q | BODY \<Rightarrow> b | OtherPayloadType \<Rightarrow> JUndefined)
        = map message (details e)"
    using assms(2) by (cases "type p") (simp_all add: performed_def libraryMessages_def)
  with assms(1,4) show ?thesis
    by (force simp: sectionMessages_def)
qed

section \<open>What the handler does\<close>

lemma handlerBody_invalid:
  assumes "joiValidator (params req) (query req) (body req) (Controller.validate self) = Some errs"
  shows "handlerBody self req =
           ([NewController, MergeAllData (allData req), CallValidate,
             CallJoiValidator (params req) (query req) (body req),
             ResStatus (JNum 400), ResJson (validationErrorBody errs)],
            Sent (JNum 400) (validationErrorBody errs))"
  using assms by (simp add: handlerBody_def)

lemma handlerBody_valid:
  assumes "joiValidator (params req) (query req) (body req) (Controller.validate self) = None"
  shows "handlerBody self req =
           respond
             [NewController, MergeAllData (allData req), CallValidate,
              CallJoiValidator (params req) (query req) (body req),
              CallRestController (params req) (query req) (body req) (headers req) (allData req)]
             (restController self (params req) (query req) (body req) (headers req) (allData req))"
  using assms by (simp add: handlerBody_def Let_def)

lemma respond_steps:
  "fst (respond steps result) = steps \<or>
   (\<exists>st r. fst (respond steps result) = steps @ [ResStatus st, ResJson r])"
  by (simp add: respond_def split: settled.splits sum.splits)

lemma respond_Sent:
  "snd (respond steps result) = Sent code bd \<longleftrightarrow>
     (\<exists>v. result = Resolved v \<and> getProp v ''response'' = Inr bd \<and> getProp bd ''status'' = Inr code)"
  by (auto simp: respond_def split: settled.splits sum.splits)

lemma respond_Sent_steps:
  "snd (respond steps result) = Sent code bd \<Longrightarrow>
     fst (respond steps result) = steps @ [ResStatus code, ResJson bd]"
  by (auto simp: respond_def split: settled.splits sum.splits)

lemma handlerBody_calls_restController:
  "CallRestController p q b h d \<in> set (fst (handlerBody self req)) \<Longrightarrow>
     joiValidator (params req) (query req) (body req) (Controller.validate self) = None \<and>
     p = params req \<and> q = query req \<and> b = body req \<and> h = headers req \<and> d = allData req"
proof (cases "joiValidator (params req) (query req) (body req) (Controller.validate self)")
  case None
  assume mem: "CallRestController p q b h d \<in> set (fst (handlerBody self req))"
  from respond_steps [of "[NewController, MergeAllData (allData req), CallValidate,
              CallJoiValidator (params req) (query req) (body req),
              CallRestController (params req) (query req) (body req) (headers req) (allData req)]"
      "restController self (params req) (query req) (body req) (headers req) (allData req)"]
    mem None
  show ?thesis
    unfolding handlerBody_valid [OF None] by auto
next
  case (Some errs)
  assume "CallRestController p q b h d \<in> set (fst (handlerBody self req))"
  then show ?thesis
    unfolding handlerBody_invalid [OF Some] by simp
qed

lemma handlerBody_restController_update:
  "joiValidator (params req) (query req) (body req) (Controller.validate self) = Some errs \<Longrightarrow>
     handlerBody (self\<lparr>restController := f\<rparr>) req = handlerBody self req"
  by (simp add: handlerBody_def)

lemma fold_get_route:
  "fold (\<lambda>(c, p, m) r. get_route asyncHandler c r p m) regs router =
     router @ map (\<lambda>(c, p, m). RouterGet p m (handler asyncHandler c)) regs"
  by (induction regs arbitrary: router) (auto simp: get_route_def)

lemma fold_post_route:
  "fold (\<lambda>(c, p, m) r. post_route asyncHandler c r p m) regs router =
     router @ map (\<lambda>(c, p, m). RouterPost p m (handler asyncHandler c)) regs"
  by (induction regs arbitrary: router) (auto simp: post_route_def)

section \<open>The example inputs\<close>

lemma exampleSchema_validate:
  "Schema.validate (exampleSchema required) d \<lparr>abortEarly = False, allowUnknown = True\<rparr> =
     (let items = map (\<lambda>k. ValidationErrorItem (k @ '' is required''))
                    (filter (\<lambda>k. map_of (ownEnumerable d) k = None) required)
      in if items = [] then None else Some (ValidationError items))"
  by (simp add: exampleSchema_def Let_def)

lemma exampleRequest_invalid:
  "joiValidator (params exampleRequest) (query exampleRequest) (body exampleRequest)
     (Controller.validate exampleController) =
   Some [(''query'', JArr [JStr ''offset is required'']),
         (''body'', JArr [JStr ''password is required''])]"
  by code_simp

lemma validRequest_valid:
  "joiValidator (params validRequest) (query validRequest) (body validRequest)
     (Controller.validate exampleController) = None"
  "joiValidator (params validRequest) (query validRequest) (body validRequest)
     (Controller.validate throwingController) = None"
  by code_simp+

lemma exampleController_resolves:
  "restController exampleController p q b h d =
     Resolved (JObj [(''response'',
       JObj [(''status'', JNum 200), (''message'', JStr ''Success''), (''data'', JNull)])])"
  by (simp add: exampleController_def)

section \<open>Properties\<close>

text \<open>
  C1. When \<^verbatim>\<open>joiValidator\<close> returns an error object for a request, the async function
  that \<^verbatim>\<open>handler\<close> wraps sends status 400 with the body
  \<^verbatim>\<open>{status: 400, message: 'Validation Error', data: null, errors: <the result>}\<close>, and
  \<^verbatim>\<open>restController\<close> is not invoked: no such call is among the steps, and the run is
  the same whatever \<^verbatim>\<open>restController\<close> the class has.
\<close>

theorem handler_validation_error:
  assumes "joiValidator (params req) (query req) (body req) (Controller.validate self) = Some errs"
  shows "handler asyncHandler self = asyncHandler (handlerBody self)
     \<and> handlerBody self req =
         ([NewController, MergeAllData (allData req), CallValidate,
           CallJoiValidator (params req) (query req) (body req),
           ResStatus (JNum 400),
           ResJson (JObj [(''status'', JNum 400), (''message'', JStr ''Validation Error''),
                          (''data'', JNull), (''errors'', JObj errs)])],
          Sent (JNum 400)
            (JObj [(''status'', JNum 400), (''message'', JStr ''Validation Error''),
                   (''data'', JNull), (''errors'', JObj errs)]))
     \<and> (\<forall>p q b h d. CallRestController p q b h d \<notin> set (fst (handlerBody self req)))
     \<and> (\<forall>f. handlerBody (self\<lparr>restController := f\<rparr>) req = handlerBody self req)"
proof (intro conjI allI)
  show "handler asyncHandler self = asyncHandler (handlerBody self)"
    by (simp add: handler_def)
  show "handlerBody self req =
         ([NewController, MergeAllData (allData req), CallValidate,
           CallJoiValidator (params req) (query req) (body req),
           ResStatus (JNum 400),
           ResJson (JObj [(''status'', JNum 400), (''message'', JStr ''Validation Error''),
                          (''data'', JNull), (''errors'', JObj errs)])],
          Sent (JNum 400)
            (JObj [(''status'', JNum 400), (''message'', JStr ''Validation Error''),
                   (''data'', JNull), (''errors'', JObj errs)]))"
    unfolding handlerBody_invalid [OF assms] validationErrorBody_def ..
  show "CallRestController p q b h d \<notin> set (fst (handlerBody self req))" for p q b h d
    using handlerBody_calls_restController [of p q b h d self req] assms by auto
  show "handlerBody (self\<lparr>restController := f\<rparr>) req = handlerBody self req" for f
    by (rule handlerBody_restController_update [OF assms])
qed

theorem handler_validation_error_witness:
  "snd (handlerBody exampleController exampleRequest) =
     Sent (JNum 400)
       (JObj [(''status'', JNum 400), (''message'', JStr ''Validation Error''), (''data'', JNull),
              (''errors'', JObj [(''query'', JArr [JStr ''offset is required'']),
                                 (''body'', JArr [JStr ''password is required''])])])
   \<and> handlerBody (exampleController\<lparr>restController := restController throwingController\<rparr>)
        exampleRequest = handlerBody exampleController exampleRequest"
  using handler_validation_error [OF exampleRequest_invalid, where asyncHandler = "\<lambda>f. f"] by simp

text \<open>
  C2. \<^verbatim>\<open>joiValidator\<close> checks a rule only against the section of its type, PARAMS rules
  against params, QUERY rules against query and BODY rules against body, through the
  library's \<^verbatim>\<open>validate\<close>, and its result is fixed by the library's messages alone. With
  an empty rule list, or with no message for any section, the result is \<^verbatim>\<open>null\<close>. In
  every other case it is the object that holds, under \<^verbatim>\<open>query\<close>, \<^verbatim>\<open>param\<close> and
  \<^verbatim>\<open>body\<close>, exactly the messages the library produced for that section's rules,
  concatenated in rule order, and no entry for a section without messages: no message is
  dropped and none is added.
\<close>

theorem joiValidator_reports_library_messages:
  "joiValidator ps q b rules =
     (if length (get rules) = 0 then None
      else if sectionMessages QUERY q (payload rules) = [] \<and>
              sectionMessages PARAMS ps (payload rules) = [] \<and>
              sectionMessages BODY b (payload rules) = [] then None
      else Some (reported ''query'' (sectionMessages QUERY q (payload rules)) @
                 reported ''param'' (sectionMessages PARAMS ps (payload rules)) @
                 reported ''body'' (sectionMessages BODY b (payload rules))))
   \<and> (\<forall>errs. joiValidator ps q b rules = Some errs \<longrightarrow>
         map_of errs ''param'' =
           (if sectionMessages PARAMS ps (payload rules) = [] then None
            else Some (JArr (map JStr (sectionMessages PARAMS ps (payload rules)))))
       \<and> map_of errs ''query'' =
           (if sectionMessages QUERY q (payload rules) = [] then None
            else Some (JArr (map JStr (sectionMessages QUERY q (payload rules)))))
       \<and> map_of errs ''body'' =
           (if sectionMessages BODY b (payload rules) = [] then None
            else Some (JArr (map JStr (sectionMessages BODY b (payload rules))))))
   \<and> (length (get rules) \<noteq> 0 \<longrightarrow>
         (sectionMessages PARAMS ps (payload rules) \<noteq> [] \<longrightarrow>
            (\<exists>errs. joiValidator ps q b rules = Some errs \<and>
               map_of errs ''param'' = Some (JArr (map JStr (sectionMessages PARAMS ps (payload rules))))))
       \<and> (sectionMessages QUERY q (payload rules) \<noteq> [] \<longrightarrow>
            (\<exists>errs. joiValidator ps q b rules = Some errs \<and>
               map_of errs ''query'' = Some (JArr (map JStr (sectionMessages QUERY q (payload rules))))))
       \<and> (sectionMessages BODY b (payload rules) \<noteq> [] \<longrightarrow>
            (\<exists>errs. joiValidator ps q b rules = Some errs \<and>
               map_of errs ''body'' = Some (JArr (map JStr (sectionMessages BODY b (payload rules)))))))"
proof (intro conjI allI impI)
  show eq: "joiValidator ps q b rules =
     (if length (get rules) = 0 then None
      else if sectionMessages QUERY q (payload rules) = [] \<and>
              sectionMessages PARAMS ps (payload rules) = [] \<and>
              sectionMessages BODY b (payload rules) = [] then None
      else Some (reported ''query'' (sectionMessages QUERY q (payload rules)) @
                 reported ''param'' (sectionMessages PARAMS ps (payload rules)) @
                 reported ''body'' (sectionMessages BODY b (payload rules))))"
    by (simp add: joiValidator_eq Let_def reported_Nil_iff)
  {
    fix errs
    assume "joiValidator ps q b rules = Some errs"
    note errs = joiValidator_Some [OF this]
    show "map_of errs ''param'' =
           (if sectionMessages PARAMS ps (payload rules) = [] then None
            else Some (JArr (map JStr (sectionMessages PARAMS ps (payload rules)))))"
      unfolding errs map_of_reported by simp
    show "map_of errs ''query'' =
           (if sectionMessages QUERY q (payload rules) = [] then None
            else Some (JArr (map JStr (sectionMessages QUERY q (payload rules)))))"
      unfolding errs map_of_reported by simp
    show "map_of errs ''body'' =
           (if sectionMessages BODY b (payload rules) = [] then None
            else Some (JArr (map JStr (sectionMessages BODY b (payload rules)))))"
      unfolding errs map_of_reported by simp
  }
  assume len: "length (get rules) \<noteq> 0"
  show "\<exists>errs. joiValidator ps q b rules = Some errs \<and>
               map_of errs ''param'' = Some (JArr (map JStr (sectionMessages PARAMS ps (payload rules))))"
    if "sectionMessages PARAMS ps (payload rules) \<noteq> []"
    unfolding eq using that len by (auto simp: reported_def)
  show "\<exists>errs. joiValidator ps q b rules = Some errs \<and>
               map_of errs ''query'' = Some (JArr (map JStr (sectionMessages QUERY q (payload rules))))"
    if "sectionMessages QUERY q (payload rules) \<noteq> []"
    unfolding eq using that len by (auto simp: reported_def)
  show "\<exists>errs. joiValidator ps q b rules = Some errs \<and>
               map_of errs ''body'' = Some (JArr (map JStr (sectionMessages BODY b (payload rules))))"
    if "sectionMessages BODY b (payload rules) \<noteq> []"
    unfolding eq using that len by (auto simp: reported_def)
qed

theorem joiValidator_reports_library_messages_witness:
  "joiValidator (params exampleRequest) (query exampleRequest) (body exampleRequest) exampleRules =
     Some [(''query'', JArr [JStr ''offset is required'']),
           (''body'', JArr [JStr ''password is required''])]
   \<and> length (get exampleRules) \<noteq> 0
   \<and> sectionMessages PARAMS (params exampleRequest) (payload exampleRules) = []
   \<and> sectionMessages QUERY (query exampleRequest) (payload exampleRules) = [''offset is required'']
   \<and> sectionMessages BODY (body exampleRequest) (payload exampleRules) = [''password is required'']
   \<and> map_of [(''query'', JArr [JStr ''offset is required'']),
             (''body'', JArr [JStr ''password is required''])] ''param'' = None
   \<and> map_of [(''query'', JArr [JStr ''offset is required'']),
             (''body'', JArr [JStr ''password is required''])] ''query'' =
       Some (JArr [JStr ''offset is required''])
   \<and> map_of [(''query'', JArr [JStr ''offset is required'']),
             (''body'', JArr [JStr ''password is required''])] ''body'' =
       Some (JArr [JStr ''password is required''])"
proof -
  have len: "length (get exampleRules) \<noteq> 0"
    by code_simp
  have msgs: "sectionMessages PARAMS (params exampleRequest) (payload exampleRules) = []"
    "sectionMessages QUERY (query exampleRequest) (payload exampleRules) = [''offset is required'']"
    "sectionMessages BODY (body exampleRequest) (payload exampleRules) = [''password is required'']"
    by code_simp+
  note inst = joiValidator_reports_library_messages [of "params exampleRequest" "query exampleRequest"
      "body exampleRequest" exampleRules]
  from inst [THEN conjunct1] len
  have run: "joiValidator (params exampleRequest) (query exampleRequest) (body exampleRequest) exampleRules =
     Some [(''query'', JArr [JStr ''offset is required'']),
           (''body'', JArr [JStr ''password is required''])]"
    unfolding msgs by (simp add: reported_def)
  from inst [THEN conjunct2, THEN conjunct1, rule_format, OF run] have
    "map_of [(''query'', JArr [JStr ''offset is required'']),
             (''body'', JArr [JStr ''password is required''])] ''param'' = None
     \<and> map_of [(''query'', JArr [JStr ''offset is required'']),
               (''body'', JArr [JStr ''password is required''])] ''query'' =
         Some (JArr [JStr ''offset is required''])
     \<and> map_of [(''query'', JArr [JStr ''offset is required'']),
               (''body'', JArr [JStr ''password is required''])] ''body'' =
         Some (JArr [JStr ''password is required''])"
    unfolding msgs by simp
  with run len msgs show ?thesis
    by (intro conjI) simp_all
qed

text \<open>
  C3. When \<^verbatim>\<open>joiValidator\<close> returns \<^verbatim>\<open>null\<close>, the handler invokes \<^verbatim>\<open>restController\<close>;
  when the call resolves to a value with a \<^verbatim>\<open>response\<close> object, that response is sent
  under its \<^verbatim>\<open>status\<close>; when the call rejects, the rejection leaves the function
  uncaught, for \<^verbatim>\<open>asyncHandler\<close>, and nothing is sent. Whatever is sent is either the
  400 validation response or the response object of \<^verbatim>\<open>restController\<close>: the handler
  builds no other error response.
\<close>

theorem handler_only_validation_failure_handled:
  "(joiValidator (params req) (query req) (body req) (Controller.validate self) = None \<longrightarrow>
      CallRestController (params req) (query req) (body req) (headers req) (allData req)
        \<in> set (fst (handlerBody self req))
      \<and> (\<forall>v r st.
            restController self (params req) (query req) (body req) (headers req) (allData req) = Resolved v \<longrightarrow>
            getProp v ''response'' = Inr r \<longrightarrow> getProp r ''status'' = Inr st \<longrightarrow>
            snd (handlerBody self req) = Sent st r)
      \<and> (\<forall>e.
            restController self (params req) (query req) (body req) (headers req) (allData req) = Rejected e \<longrightarrow>
            handlerBody self req =
              ([NewController, MergeAllData (allData req), CallValidate,
                CallJoiValidator (params req) (query req) (body req),
                CallRestController (params req) (query req) (body req) (headers req) (allData req)],
               Uncaught e)))
   \<and> (\<forall>code bd. snd (handlerBody self req) = Sent code bd \<longrightarrow>
        (\<exists>errs. joiValidator (params req) (query req) (body req) (Controller.validate self) = Some errs
           \<and> code = JNum 400
           \<and> bd = JObj [(''status'', JNum 400), (''message'', JStr ''Validation Error''),
                         (''data'', JNull), (''errors'', JObj errs)])
        \<or> (joiValidator (params req) (query req) (body req) (Controller.validate self) = None
           \<and> (\<exists>v. restController self (params req) (query req) (body req) (headers req) (allData req)
                      = Resolved v
                 \<and> getProp v ''response'' = Inr bd \<and> getProp bd ''status'' = Inr code)))"
proof (intro conjI allI impI)
  assume valid: "joiValidator (params req) (query req) (body req) (Controller.validate self) = None"
  note run = handlerBody_valid [OF valid]
  show "CallRestController (params req) (query req) (body req) (headers req) (allData req)
        \<in> set (fst (handlerBody self req))"
    unfolding run
    using respond_steps [of "[NewController, MergeAllData (allData req), CallValidate,
              CallJoiValidator (params req) (query req) (body req),
              CallRestController (params req) (query req) (body req) (headers req) (allData req)]"
      "restController self (params req) (query req) (body req) (headers req) (allData req)"]
    by auto
  show "snd (handlerBody self req) = Sent st r"
    if "restController self (params req) (query req) (body req) (headers req) (allData req) = Resolved v"
      and "getProp v ''response'' = Inr r" and "getProp r ''status'' = Inr st" for v r st
    unfolding run using that by (simp add: respond_def)
  show "handlerBody self req =
          ([NewController, MergeAllData (allData req), CallValidate,
            CallJoiValidator (params req) (query req) (body req),
            CallRestController (params req) (query req) (body req) (headers req) (allData req)],
           Uncaught e)"
    if "restController self (params req) (query req) (body req) (headers req) (allData req) = Rejected e"
    for e
    unfolding run using that by (simp add: respond_def)
next
  fix code bd
  assume sent: "snd (handlerBody self req) = Sent code bd"
  show "(\<exists>errs. joiValidator (params req) (query req) (body req) (Controller.validate self) = Some errs
           \<and> code = JNum 400
           \<and> bd = JObj [(''status'', JNum 400), (''message'', JStr ''Validation Error''),
                         (''data'', JNull), (''errors'', JObj errs)])
        \<or> (joiValidator (params req) (query req) (body req) (Controller.validate self) = None
           \<and> (\<exists>v. restController self (params req) (query req) (body req) (headers req) (allData req)
                      = Resolved v
                 \<and> getProp v ''response'' = Inr bd \<and> getProp bd ''status'' = Inr code))"
  proof (cases "joiValidator (params req) (query req) (body req) (Controller.validate self)")
    case None
    from sent show ?thesis
      unfolding handlerBody_valid [OF None] respond_Sent using None by simp
  next
    case (Some errs)
    from sent show ?thesis
      unfolding handlerBody_invalid [OF Some] validationErrorBody_def using Some by auto
  qed
qed

theorem handler_only_validation_failure_handled_witness:
  "joiValidator (params validRequest) (query validRequest) (body validRequest)
        (Controller.validate exampleController) = None
   \<and> CallRestController (params validRequest) (query validRequest) (body validRequest)
         (headers validRequest) (allData validRequest)
       \<in> set (fst (handlerBody exampleController validRequest))
   \<and> snd (handlerBody exampleController validRequest) =
       Sent (JNum 200) (JObj [(''status'', JNum 200), (''message'', JStr ''Success''), (''data'', JNull)])
   \<and> handlerBody throwingController validRequest =
     ([NewController, MergeAllData (allData validRequest), CallValidate,
       CallJoiValidator (params validRequest) (query validRequest) (body validRequest),
       CallRestController (params validRequest) (query validRequest) (body validRequest)
         (headers validRequest) (allData validRequest)],
      Uncaught (Thrown (JStr ''boom'')))
   \<and> (\<exists>errs. joiValidator (params exampleRequest) (query exampleRequest) (body exampleRequest)
                (Controller.validate exampleController) = Some errs
         \<and> snd (handlerBody exampleController exampleRequest) =
             Sent (JNum 400)
               (JObj [(''status'', JNum 400), (''message'', JStr ''Validation Error''),
                      (''data'', JNull), (''errors'', JObj errs)]))"
proof -
  note resolving = handler_only_validation_failure_handled [of validRequest exampleController]
  note throwing = handler_only_validation_failure_handled [of validRequest throwingController]
  note failing = handler_only_validation_failure_handled [of exampleRequest exampleController]
  have thrown: "restController throwingController (params validRequest) (query validRequest)
      (body validRequest) (headers validRequest) (allData validRequest) = Rejected (Thrown (JStr ''boom''))"
    by (simp add: throwingController_def)
  have resp: "getProp (JObj [(''response'',
       JObj [(''status'', JNum 200), (''message'', JStr ''Success''), (''data'', JNull)])]) ''response'' =
     Inr (JObj [(''status'', JNum 200), (''message'', JStr ''Success''), (''data'', JNull)])"
    "getProp (JObj [(''status'', JNum 200), (''message'', JStr ''Success''), (''data'', JNull)]) ''status'' =
     Inr (JNum 200)"
    by simp_all
  note valid = resolving [THEN conjunct1, THEN mp, OF validRequest_valid(1)]
  from valid
  have called: "CallRestController (params validRequest) (query validRequest) (body validRequest)
         (headers validRequest) (allData validRequest)
       \<in> set (fst (handlerBody exampleController validRequest))"
    by (rule conjunct1)
  from valid [THEN conjunct2, THEN conjunct1, rule_format, OF exampleController_resolves resp]
  have sent: "snd (handlerBody exampleController validRequest) =
       Sent (JNum 200) (JObj [(''status'', JNum 200), (''message'', JStr ''Success''), (''data'', JNull)])"
    .
  from throwing [THEN conjunct1, THEN mp, OF validRequest_valid(2), THEN conjunct2, THEN conjunct2,
      rule_format, OF thrown]
  have uncaught: "handlerBody throwingController validRequest =
     ([NewController, MergeAllData (allData validRequest), CallValidate,
       CallJoiValidator (params validRequest) (query validRequest) (body validRequest),
       CallRestController (params validRequest) (query validRequest) (body validRequest)
         (headers validRequest) (allData validRequest)],
      Uncaught (Thrown (JStr ''boom'')))"
    .
  have sent400: "snd (handlerBody exampleController exampleRequest) =
      Sent (JNum 400) (validationErrorBody [(''query'', JArr [JStr ''offset is required'']),
                                            (''body'', JArr [JStr ''password is required''])])"
    unfolding handlerBody_invalid [OF exampleRequest_invalid] by simp
  from failing [THEN conjunct2, rule_format, OF sent400] exampleRequest_invalid sent400
  have only: "\<exists>errs. joiValidator (params exampleRequest) (query exampleRequest) (body exampleRequest)
                (Controller.validate exampleController) = Some errs
         \<and> snd (handlerBody exampleController exampleRequest) =
             Sent (JNum 400)
               (JObj [(''status'', JNum 400), (''message'', JStr ''Validation Error''),
                      (''data'', JNull), (''errors'', JObj errs)])"
    by simp
  from validRequest_valid(1) called sent uncaught only show ?thesis
    by (intro conjI)
qed

text \<open>
  C4. Every run starts with the same four steps, in this order: the controller instance
  is made, the request data are merged into \<^verbatim>\<open>allData\<close>, the rules are obtained from
  \<^verbatim>\<open>validate\<close>, and \<^verbatim>\<open>joiValidator\<close> runs on params, query and body. When validation
  passes, the next step is the call of \<^verbatim>\<open>restController\<close> with params, query, body,
  headers and \<^verbatim>\<open>allData\<close>, and the response built from its result is sent last. When
  validation fails, the 400 response follows the four steps.
\<close>

theorem handler_step_order:
  "take 4 (fst (handlerBody self req)) =
     [NewController, MergeAllData (allData req), CallValidate,
      CallJoiValidator (params req) (query req) (body req)]
   \<and> (joiValidator (params req) (query req) (body req) (Controller.validate self) = None \<longrightarrow>
        take 5 (fst (handlerBody self req)) =
          [NewController, MergeAllData (allData req), CallValidate,
           CallJoiValidator (params req) (query req) (body req),
           CallRestController (params req) (query req) (body req) (headers req) (allData req)]
        \<and> (\<forall>v r st.
              restController self (params req) (query req) (body req) (headers req) (allData req) = Resolved v \<longrightarrow>
              getProp v ''response'' = Inr r \<longrightarrow> getProp r ''status'' = Inr st \<longrightarrow>
              fst (handlerBody self req) =
                [NewController, MergeAllData (allData req), CallValidate,
                 CallJoiValidator (params req) (query req) (body req),
                 CallRestController (params req) (query req) (body req) (headers req) (allData req),
                 ResStatus st, ResJson r]))
   \<and> (\<forall>errs. joiValidator (params req) (query req) (body req) (Controller.validate self) = Some errs \<longrightarrow>
        fst (handlerBody self req) =
          [NewController, MergeAllData (allData req), CallValidate,
           CallJoiValidator (params req) (query req) (body req),
           ResStatus (JNum 400),
           ResJson (JObj [(''status'', JNum 400), (''message'', JStr ''Validation Error''),
                          (''data'', JNull), (''errors'', JObj errs)])])"
proof (intro conjI allI impI)
  show "take 4 (fst (handlerBody self req)) =
     [NewController, MergeAllData (allData req), CallValidate,
      CallJoiValidator (params req) (query req) (body req)]"
  proof (cases "joiValidator (params req) (query req) (body req) (Controller.validate self)")
    case None
    from respond_steps [of "[NewController, MergeAllData (allData req), CallValidate,
              CallJoiValidator (params req) (query req) (body req),
              CallRestController (params req) (query req) (body req) (headers req) (allData req)]"
      "restController self (params req) (query req) (body req) (headers req) (allData req)"]
    show ?thesis
      unfolding handlerBody_valid [OF None] by auto
  next
    case (Some errs)
    show ?thesis
      unfolding handlerBody_invalid [OF Some] by simp
  qed
next
  assume valid: "joiValidator (params req) (query req) (body req) (Controller.validate self) = None"
  from respond_steps [of "[NewController, MergeAllData (allData req), CallValidate,
              CallJoiValidator (params req) (query req) (body req),
              CallRestController (params req) (query req) (body req) (headers req) (allData req)]"
      "restController self (params req) (query req) (body req) (headers req) (allData req)"]
  show "take 5 (fst (handlerBody self req)) =
          [NewController, MergeAllData (allData req), CallValidate,
           CallJoiValidator (params req) (query req) (body req),
           CallRestController (params req) (query req) (body req) (headers req) (allData req)]"
    unfolding handlerBody_valid [OF valid] by auto
  show "fst (handlerBody self req) =
                [NewController, MergeAllData (allData req), CallValidate,
                 CallJoiValidator (params req) (query req) (body req),
                 CallRestController (params req) (query req) (body req) (headers req) (allData req),
                 ResStatus st, ResJson r]"
    if "restController self (params req) (query req) (body req) (headers req) (allData req) = Resolved v"
      and "getProp v ''response'' = Inr r" and "getProp r ''status'' = Inr st" for v r st
    unfolding handlerBody_valid [OF valid] using that by (simp add: respond_def)
next
  fix errs
  assume invalid: "joiValidator (params req) (query req) (body req) (Controller.validate self) = Some errs"
  show "fst (handlerBody self req) =
          [NewController, MergeAllData (allData req), CallValidate,
           CallJoiValidator (params req) (query req) (body req),
           ResStatus (JNum 400),
           ResJson (JObj [(''status'', JNum 400), (''message'', JStr ''Validation Error''),
                          (''data'', JNull), (''errors'', JObj errs)])]"
    unfolding handlerBody_invalid [OF invalid] validationErrorBody_def by simp
qed

theorem handler_step_order_witness:
  "fst (handlerBody exampleController validRequest) =
     [NewController,
      MergeAllData [(''id'', JNum 7), (''limit'', JNum 10), (''offset'', JNum 0),
                    (''email'', JStr ''a@b.c''), (''password'', JStr ''12345678''),
                    (''host'', JStr ''localhost'')],
      CallValidate,
      CallJoiValidator (params validRequest) (query validRequest) (body validRequest),
      CallRestController (params validRequest) (query validRequest) (body validRequest)
        (headers validRequest)
        [(''id'', JNum 7), (''limit'', JNum 10), (''offset'', JNum 0),
         (''email'', JStr ''a@b.c''), (''password'', JStr ''12345678''),
         (''host'', JStr ''localhost'')],
      ResStatus (JNum 200),
      ResJson (JObj [(''status'', JNum 200), (''message'', JStr ''Success''), (''data'', JNull)])]
   \<and> fst (handlerBody exampleController exampleRequest) =
     [NewController, MergeAllData (allData exampleRequest), CallValidate,
      CallJoiValidator (params exampleRequest) (query exampleRequest) (body exampleRequest),
      ResStatus (JNum 400),
      ResJson (JObj [(''status'', JNum 400), (''message'', JStr ''Validation Error''), (''data'', JNull),
                     (''errors'', JObj [(''query'', JArr [JStr ''offset is required'']),
                                        (''body'', JArr [JStr ''password is required''])])])]"
proof -
  have data: "allData validRequest =
      [(''id'', JNum 7), (''limit'', JNum 10), (''offset'', JNum 0),
       (''email'', JStr ''a@b.c''), (''password'', JStr ''12345678''),
       (''host'', JStr ''localhost'')]"
    by code_simp
  have resp: "getProp (JObj [(''response'',
       JObj [(''status'', JNum 200), (''message'', JStr ''Success''), (''data'', JNull)])]) ''response'' =
     Inr (JObj [(''status'', JNum 200), (''message'', JStr ''Success''), (''data'', JNull)])"
    "getProp (JObj [(''status'', JNum 200), (''message'', JStr ''Success''), (''data'', JNull)]) ''status'' =
     Inr (JNum 200)"
    by simp_all
  from handler_step_order [of exampleController validRequest]
    validRequest_valid(1) exampleController_resolves resp
  have ok: "fst (handlerBody exampleController validRequest) =
     [NewController, MergeAllData (allData validRequest), CallValidate,
      CallJoiValidator (params validRequest) (query validRequest) (body validRequest),
      CallRestController (params validRequest) (query validRequest) (body validRequest)
        (headers validRequest) (allData validRequest),
      ResStatus (JNum 200),
      ResJson (JObj [(''status'', JNum 200), (''message'', JStr ''Success''), (''data'', JNull)])]"
    by blast
  from handler_step_order [of exampleController exampleRequest] exampleRequest_invalid
  have bad: "fst (handlerBody exampleController exampleRequest) =
     [NewController, MergeAllData (allData exampleRequest), CallValidate,
      CallJoiValidator (params exampleRequest) (query exampleRequest) (body exampleRequest),
      ResStatus (JNum 400),
      ResJson (JObj [(''status'', JNum 400), (''message'', JStr ''Validation Error''), (''data'', JNull),
                     (''errors'', JObj [(''query'', JArr [JStr ''offset is required'']),
                                        (''body'', JArr [JStr ''password is required''])])])]"
    by blast
  from ok bad show ?thesis
    unfolding data by simp
qed

text \<open>
  C5. On validation failure the body sent has exactly the fields \<^verbatim>\<open>status\<close>,
  \<^verbatim>\<open>message\<close>, \<^verbatim>\<open>data\<close> and \<^verbatim>\<open>errors\<close>. On success a response is sent exactly when
  \<^verbatim>\<open>restController\<close> resolves to a value whose \<^verbatim>\<open>response\<close> property is the body sent
  and whose \<^verbatim>\<open>status\<close> is the status code sent. Every response sent is the pair of
  calls \<^verbatim>\<open>res.status(code)\<close>, \<^verbatim>\<open>.json(body)\<close> that ends the run.
\<close>

theorem handler_response_shape:
  "(\<forall>errs. joiValidator (params req) (query req) (body req) (Controller.validate self) = Some errs \<longrightarrow>
      (\<exists>flds. snd (handlerBody self req) = Sent (JNum 400) (JObj flds)
         \<and> keys flds = [''status'', ''message'', ''data'', ''errors'']))
   \<and> (joiValidator (params req) (query req) (body req) (Controller.validate self) = None \<longrightarrow>
        (\<forall>code bd. snd (handlerBody self req) = Sent code bd \<longleftrightarrow>
           (\<exists>v. restController self (params req) (query req) (body req) (headers req) (allData req)
                   = Resolved v
              \<and> getProp v ''response'' = Inr bd \<and> getProp bd ''status'' = Inr code)))
   \<and> (\<forall>code bd. snd (handlerBody self req) = Sent code bd \<longrightarrow>
        (\<exists>steps. fst (handlerBody self req) = steps @ [ResStatus code, ResJson bd]))"
proof (intro conjI allI impI)
  fix errs
  assume invalid: "joiValidator (params req) (query req) (body req) (Controller.validate self) = Some errs"
  show "\<exists>flds. snd (handlerBody self req) = Sent (JNum 400) (JObj flds)
         \<and> keys flds = [''status'', ''message'', ''data'', ''errors'']"
    unfolding handlerBody_invalid [OF invalid] validationErrorBody_def
    by (simp add: keys_def)
next
  fix code bd
  assume valid: "joiValidator (params req) (query req) (body req) (Controller.validate self) = None"
  show "snd (handlerBody self req) = Sent code bd \<longleftrightarrow>
           (\<exists>v. restController self (params req) (query req) (body req) (headers req) (allData req)
                   = Resolved v
              \<and> getProp v ''response'' = Inr bd \<and> getProp bd ''status'' = Inr code)"
    unfolding handlerBody_valid [OF valid] by (rule respond_Sent)
next
  fix code bd
  assume sent: "snd (handlerBody self req) = Sent code bd"
  show "\<exists>steps. fst (handlerBody self req) = steps @ [ResStatus code, ResJson bd]"
  proof (cases "joiValidator (params req) (query req) (body req) (Controller.validate self)")
    case None
    from sent show ?thesis
      unfolding handlerBody_valid [OF None] by (blast dest: respond_Sent_steps)
  next
    case (Some errs)
    have "[NewController, MergeAllData (allData req), CallValidate,
             CallJoiValidator (params req) (query req) (body req),
             ResStatus (JNum 400), ResJson (validationErrorBody errs)] =
          [NewController, MergeAllData (allData req), CallValidate,
             CallJoiValidator (params req) (query req) (body req)] @
          [ResStatus (JNum 400), ResJson (validationErrorBody errs)]"
      by simp
    with sent show ?thesis
      unfolding handlerBody_invalid [OF Some] by (metis outcome.inject snd_conv fst_conv)
  qed
qed

theorem handler_response_shape_witness:
  "snd (handlerBody exampleController validRequest) =
     Sent (JNum 200) (JObj [(''status'', JNum 200), (''message'', JStr ''Success''), (''data'', JNull)])
   \<and> (\<exists>flds. snd (handlerBody exampleController exampleRequest) = Sent (JNum 400) (JObj flds)
         \<and> keys flds = [''status'', ''message'', ''data'', ''errors''])
   \<and> (\<exists>steps. fst (handlerBody exampleController validRequest) =
         steps @ [ResStatus (JNum 200),
                  ResJson (JObj [(''status'', JNum 200), (''message'', JStr ''Success''), (''data'', JNull)])])"
proof -
  note shape1 = handler_response_shape [of validRequest exampleController]
  note shape2 = handler_response_shape [of exampleRequest exampleController]
  have resp: "getProp (JObj [(''response'',
       JObj [(''status'', JNum 200), (''message'', JStr ''Success''), (''data'', JNull)])]) ''response'' =
     Inr (JObj [(''status'', JNum 200), (''message'', JStr ''Success''), (''data'', JNull)])"
    "getProp (JObj [(''status'', JNum 200), (''message'', JStr ''Success''), (''data'', JNull)]) ''status'' =
     Inr (JNum 200)"
    by simp_all
  from shape1 validRequest_valid(1) exampleController_resolves resp
  have sent: "snd (handlerBody exampleController validRequest) =
     Sent (JNum 200) (JObj [(''status'', JNum 200), (''message'', JStr ''Success''), (''data'', JNull)])"
    by blast
  with shape1 have steps: "\<exists>steps. fst (handlerBody exampleController validRequest) =
         steps @ [ResStatus (JNum 200),
                  ResJson (JObj [(''status'', JNum 200), (''message'', JStr ''Success''), (''data'', JNull)])]"
    by blast
  from shape2 exampleRequest_invalid
  have "\<exists>flds. snd (handlerBody exampleController exampleRequest) = Sent (JNum 400) (JObj flds)
         \<and> keys flds = [''status'', ''message'', ''data'', ''errors'']"
    by blast
  with sent steps show ?thesis
    by blast
qed

text \<open>
  C6. \<^verbatim>\<open>get\<close> makes one call of \<^verbatim>\<open>router.get\<close>, and \<^verbatim>\<open>post\<close> one of \<^verbatim>\<open>router.post\<close>,
  with the path, the middlewares and the handler of the invoking class; a sequence of
  registrations gives one router call each, in order, each with the handler of its own
  class. That handler wraps the function that makes an instance first and runs on the
  class's \<^verbatim>\<open>validate\<close> and on the instance's \<^verbatim>\<open>restController\<close>.
\<close>

theorem route_registration:
  "get_route asyncHandler self router path middlewares =
     router @ [RouterGet path middlewares (asyncHandler (handlerBody self))]
   \<and> post_route asyncHandler self router path middlewares =
     router @ [RouterPost path middlewares (asyncHandler (handlerBody self))]
   \<and> fold (\<lambda>(c, p, m) r. get_route asyncHandler c r p m) regs router =
     router @ map (\<lambda>(c, p, m). RouterGet p m (handler asyncHandler c)) regs
   \<and> fold (\<lambda>(c, p, m) r. post_route asyncHandler c r p m) regs router =
     router @ map (\<lambda>(c, p, m). RouterPost p m (handler asyncHandler c)) regs
   \<and> hd (fst (handlerBody self req)) = NewController
   \<and> handlerBody self req =
       (case joiValidator (params req) (query req) (body req) (Controller.validate self) of
          Some errs \<Rightarrow>
            ([NewController, MergeAllData (allData req), CallValidate,
              CallJoiValidator (params req) (query req) (body req),
              ResStatus (JNum 400), ResJson (validationErrorBody errs)],
             Sent (JNum 400) (validationErrorBody errs))
        | None \<Rightarrow>
            respond
              [NewController, MergeAllData (allData req), CallValidate,
               CallJoiValidator (params req) (query req) (body req),
               CallRestController (params req) (query req) (body req) (headers req) (allData req)]
              (restController self (params req) (query req) (body req) (headers req) (allData req)))"
proof (intro conjI)
  show "get_route asyncHandler self router path middlewares =
     router @ [RouterGet path middlewares (asyncHandler (handlerBody self))]"
    by (simp add: get_route_def handler_def)
  show "post_route asyncHandler self router path middlewares =
     router @ [RouterPost path middlewares (asyncHandler (handlerBody self))]"
    by (simp add: post_route_def handler_def)
  show "fold (\<lambda>(c, p, m) r. get_route asyncHandler c r p m) regs router =
     router @ map (\<lambda>(c, p, m). RouterGet p m (handler asyncHandler c)) regs"
    by (rule fold_get_route)
  show "fold (\<lambda>(c, p, m) r. post_route asyncHandler c r p m) regs router =
     router @ map (\<lambda>(c, p, m). RouterPost p m (handler asyncHandler c)) regs"
    by (rule fold_post_route)
  show body: "handlerBody self req =
       (case joiValidator (params req) (query req) (body req) (Controller.validate self) of
          Some errs \<Rightarrow>
            ([NewController, MergeAllData (allData req), CallValidate,
              CallJoiValidator (params req) (query req) (body req),
              ResStatus (JNum 400), ResJson (validationErrorBody errs)],
             Sent (JNum 400) (validationErrorBody errs))
        | None \<Rightarrow>
            respond
              [NewController, MergeAllData (allData req), CallValidate,
               CallJoiValidator (params req) (query req) (body req),
               CallRestController (params req) (query req) (body req) (headers req) (allData req)]
              (restController self (params req) (query req) (body req) (headers req) (allData req)))"
    by (simp add: handlerBody_invalid handlerBody_valid split: option.splits)
  show "hd (fst (handlerBody self req)) = NewController"
  proof (cases "joiValidator (params req) (query req) (body req) (Controller.validate self)")
    case None
    from respond_steps [of "[NewController, MergeAllData (allData req), CallValidate,
              CallJoiValidator (params req) (query req) (body req),
              CallRestController (params req) (query req) (body req) (headers req) (allData req)]"
      "restController self (params req) (query req) (body req) (headers req) (allData req)"]
    show ?thesis
      unfolding handlerBody_valid [OF None] by auto
  next
    case (Some errs)
    show ?thesis
      unfolding handlerBody_invalid [OF Some] by simp
  qed
qed




text \<open>
  C8, in the form that holds. Every schema validation of \<^verbatim>\<open>joiValidator\<close> is made with
  \<^verbatim>\<open>abortEarly: false\<close> and \<^verbatim>\<open>allowUnknown: true\<close>: the result is the same when every
  schema is replaced by one that answers under these options whatever it is given.
  \<^verbatim>\<open>joiValidator\<close> has no check of its own on the keys of a section: two values of a
  section to which the schemas of that section's rules give the same answers under these
  options give the same result, so whether a key is accepted is decided by the schema
  alone. And every message of every detail of an error the library returns for a rule is
  in the array of the rule's section, not only the first.
\<close>

theorem joiValidator_options:
  "joiValidator ps q b rules = joiValidator ps q b (rules\<lparr>payload := map atJoiOptions (payload rules)\<rparr>)
   \<and> ((\<forall>p \<in> set (payload rules). type p = PARAMS \<longrightarrow>
          Schema.validate (schema p) d \<lparr>abortEarly = False, allowUnknown = True\<rparr> =
          Schema.validate (schema p) d' \<lparr>abortEarly = False, allowUnknown = True\<rparr>) \<longrightarrow>
        joiValidator d q b rules = joiValidator d' q b rules)
   \<and> ((\<forall>p \<in> set (payload rules). type p = QUERY \<longrightarrow>
          Schema.validate (schema p) d \<lparr>abortEarly = False, allowUnknown = True\<rparr> =
          Schema.validate (schema p) d' \<lparr>abortEarly = False, allowUnknown = True\<rparr>) \<longrightarrow>
        joiValidator ps d b rules = joiValidator ps d' b rules)
   \<and> ((\<forall>p \<in> set (payload rules). type p = BODY \<longrightarrow>
          Schema.validate (schema p) d \<lparr>abortEarly = False, allowUnknown = True\<rparr> =
          Schema.validate (schema p) d' \<lparr>abortEarly = False, allowUnknown = True\<rparr>) \<longrightarrow>
        joiValidator ps q d rules = joiValidator ps q d' rules)
   \<and> (\<forall>p \<in> set (payload rules). \<forall>e key.
        length (get rules) \<noteq> 0 \<longrightarrow> performed ps q b p = Some e \<longrightarrow> errorKey (type p) = Some key \<longrightarrow>
        (\<forall>i \<in> set (details e). \<exists>errs msgs.
           joiValidator ps q b rules = Some errs \<and> map_of errs key = Some (JArr msgs) \<and>
           JStr (message i) \<in> set msgs))"
proof (intro conjI impI ballI allI)
  show "joiValidator ps q b rules =
        joiValidator ps q b (rules\<lparr>payload := map atJoiOptions (payload rules)\<rparr>)"
    by (simp add: joiValidator_eq sectionMessages_atJoiOptions)
next
  assume "\<forall>p \<in> set (payload rules). type p = PARAMS \<longrightarrow>
          Schema.validate (schema p) d \<lparr>abortEarly = False, allowUnknown = True\<rparr> =
          Schema.validate (schema p) d' \<lparr>abortEarly = False, allowUnknown = True\<rparr>"
  then show "joiValidator d q b rules = joiValidator d' q b rules"
    by (simp add: joiValidator_eq sectionMessages_cong [of _ PARAMS d d'])
next
  assume "\<forall>p \<in> set (payload rules). type p = QUERY \<longrightarrow>
          Schema.validate (schema p) d \<lparr>abortEarly = False, allowUnknown = True\<rparr> =
          Schema.validate (schema p) d' \<lparr>abortEarly = False, allowUnknown = True\<rparr>"
  then show "joiValidator ps d b rules = joiValidator ps d' b rules"
    by (simp add: joiValidator_eq sectionMessages_cong [of _ QUERY d d'])
next
  assume "\<forall>p \<in> set (payload rules). type p = BODY \<longrightarrow>
          Schema.validate (schema p) d \<lparr>abortEarly = False, allowUnknown = True\<rparr> =
          Schema.validate (schema p) d' \<lparr>abortEarly = False, allowUnknown = True\<rparr>"
  then show "joiValidator ps q d rules = joiValidator ps q d' rules"
    by (simp add: joiValidator_eq sectionMessages_cong [of _ BODY d d'])
next
  fix p e key i
  assume p: "p \<in> set (payload rules)" and len: "length (get rules) \<noteq> 0"
    and perf: "performed ps q b p = Some e" and key: "errorKey (type p) = Some key"
    and i: "i \<in> set (details e)"
  note mem = performed_messages [OF p perf key i]
  let ?errs = "reported ''query'' (sectionMessages QUERY q (payload rules)) @
               reported ''param'' (sectionMessages PARAMS ps (payload rules)) @
               reported ''body'' (sectionMessages BODY b (payload rules))"
  have run: "joiValidator ps q b rules = Some ?errs"
    using len mem key
    by (cases "type p") (auto simp: joiValidator_eq Let_def reported_def)
  have "\<exists>msgs. map_of ?errs key = Some (JArr msgs) \<and> JStr (message i) \<in> set msgs"
    using mem key unfolding map_of_reported
    by (cases "type p") auto
  with run show "\<exists>errs msgs. joiValidator ps q b rules = Some errs \<and>
      map_of errs key = Some (JArr msgs) \<and> JStr (message i) \<in> set msgs"
    by blast
qed

theorem joiValidator_options_witness:
  "joiValidator (JObj (setProp ''extra'' (JNum 1) [(''id'', JNum 7)])) (query validRequest)
       (body validRequest) exampleRules =
   joiValidator (JObj [(''id'', JNum 7)]) (query validRequest) (body validRequest) exampleRules
   \<and> joiValidator (JObj [(''id'', JNum 7)]) (query validRequest) (body validRequest) exampleRules = None
   \<and> length (get exampleRules) \<noteq> 0
   \<and> performed (params validRequest) (query validRequest) (JObj []) (hd (payload exampleRules)) =
        Some (ValidationError [ValidationErrorItem ''email is required'',
                               ValidationErrorItem ''password is required''])
   \<and> (\<exists>errs msgs. joiValidator (params validRequest) (query validRequest) (JObj []) exampleRules = Some errs
         \<and> map_of errs ''body'' = Some (JArr msgs) \<and> JStr ''password is required'' \<in> set msgs)"
proof -
  have same: "\<forall>p \<in> set (payload exampleRules). type p = PARAMS \<longrightarrow>
      Schema.validate (schema p) (JObj (setProp ''extra'' (JNum 1) [(''id'', JNum 7)]))
        \<lparr>abortEarly = False, allowUnknown = True\<rparr> =
      Schema.validate (schema p) (JObj [(''id'', JNum 7)])
        \<lparr>abortEarly = False, allowUnknown = True\<rparr>"
    by (simp add: exampleRules_def examplePayload_def exampleSchema_validate)
  have base: "joiValidator (JObj [(''id'', JNum 7)]) (query validRequest) (body validRequest) exampleRules = None"
    by code_simp
  from joiValidator_options [of "JObj []" "query validRequest" "body validRequest" exampleRules
      "JObj (setProp ''extra'' (JNum 1) [(''id'', JNum 7)])" "JObj [(''id'', JNum 7)]",
      THEN conjunct2, THEN conjunct1, THEN mp, OF same]
  have extra: "joiValidator (JObj (setProp ''extra'' (JNum 1) [(''id'', JNum 7)])) (query validRequest)
       (body validRequest) exampleRules =
     joiValidator (JObj [(''id'', JNum 7)]) (query validRequest) (body validRequest) exampleRules"
    .
  have len: "length (get exampleRules) \<noteq> 0"
    by code_simp
  have hd_in: "hd (payload exampleRules) \<in> set (payload exampleRules)"
    by (simp add: exampleRules_def examplePayload_def)
  have key: "errorKey (type (hd (payload exampleRules))) = Some ''body''"
    by (simp add: exampleRules_def examplePayload_def)
  have perf: "performed (params validRequest) (query validRequest) (JObj []) (hd (payload exampleRules)) =
        Some (ValidationError [ValidationErrorItem ''email is required'',
                               ValidationErrorItem ''password is required''])"
    by code_simp
  have item: "ValidationErrorItem ''password is required'' \<in>
      set (details (ValidationError [ValidationErrorItem ''email is required'',
                                     ValidationErrorItem ''password is required'']))"
    by simp
  from joiValidator_options [of "params validRequest" "query validRequest" "JObj []" exampleRules,
      THEN conjunct2, THEN conjunct2, THEN conjunct2, THEN conjunct2, rule_format,
      OF hd_in len perf key item]
  have coll: "\<exists>errs msgs. joiValidator (params validRequest) (query validRequest) (JObj []) exampleRules = Some errs
         \<and> map_of errs ''body'' = Some (JArr msgs) \<and> JStr ''password is required'' \<in> set msgs"
    by simp
  from extra base len perf coll show ?thesis
    by (intro conjI)
qed

text \<open>
  That a key which no schema mentions never causes a validation failure does not hold:
  the options are passed, but a schema that forbids unknown keys itself answers with an
  error all the same, and the request that passes without the key \<^verbatim>\<open>extra\<close> fails with
  it.
\<close>

theorem joiValidator_unknown_key_counterexample:
  "joiValidator (JObj [(''id'', JNum 7)]) (JObj []) (JObj []) closedRules = None
   \<and> joiValidator (JObj (setProp ''extra'' (JNum 1) [(''id'', JNum 7)])) (JObj []) (JObj []) closedRules =
       Some [(''param'', JArr [JStr ''extra is not allowed''])]
   \<and> Schema.validate (closedSchema [''id'']) (JObj [(''id'', JNum 7)])
        \<lparr>abortEarly = False, allowUnknown = True\<rparr> = None"
  by code_simp

text \<open>
  C9. For a request whose sections and own properties are well-formed objects,
  \<^verbatim>\<open>allData\<close> holds, under every key, the value of the last of params, query, body,
  headers and the request object that has the key; in particular an own property of
  the request object shadows every same-named entry. Its keys are those of the five
  sources, each once, and it is the \<^verbatim>\<open>allData\<close> that \<^verbatim>\<open>restController\<close> is called with.
\<close>

theorem allData_later_source_wins:
  assumes "distinct (keys (ownEnumerable (params req)))"
    and "distinct (keys (ownEnumerable (query req)))"
    and "distinct (keys (ownEnumerable (body req)))"
    and "distinct (keys (ownEnumerable (headers req)))"
    and "distinct (keys (own req))"
  shows "map_of (allData req) k =
           (case map_of (own req) k of
              Some v \<Rightarrow> Some v
            | None \<Rightarrow>
               (case map_of (ownEnumerable (headers req)) k of
                  Some v \<Rightarrow> Some v
                | None \<Rightarrow>
                   (case map_of (ownEnumerable (body req)) k of
                      Some v \<Rightarrow> Some v
                    | None \<Rightarrow>
                       (case map_of (ownEnumerable (query req)) k of
                          Some v \<Rightarrow> Some v
                        | None \<Rightarrow> map_of (ownEnumerable (params req)) k))))
       \<and> (k \<in> set (keys (own req)) \<longrightarrow> map_of (allData req) k = map_of (own req) k)
       \<and> set (keys (allData req)) =
           set (keys (ownEnumerable (params req))) \<union> set (keys (ownEnumerable (query req))) \<union>
           set (keys (ownEnumerable (body req))) \<union> set (keys (ownEnumerable (headers req))) \<union>
           set (keys (own req))
       \<and> distinct (keys (allData req))
       \<and> (\<forall>p q b h d. CallRestController p q b h d \<in> set (fst (handlerBody self req)) \<longrightarrow>
             d = allData req)"
proof (intro conjI allI impI)
  note lookup = map_of_allData [OF assms]
  show cases: "map_of (allData req) k =
           (case map_of (own req) k of
              Some v \<Rightarrow> Some v
            | None \<Rightarrow>
               (case map_of (ownEnumerable (headers req)) k of
                  Some v \<Rightarrow> Some v
                | None \<Rightarrow>
                   (case map_of (ownEnumerable (body req)) k of
                      Some v \<Rightarrow> Some v
                    | None \<Rightarrow>
                       (case map_of (ownEnumerable (query req)) k of
                          Some v \<Rightarrow> Some v
                        | None \<Rightarrow> map_of (ownEnumerable (params req)) k))))"
    unfolding lookup by (simp add: map_add_def split: option.splits)
  show "map_of (allData req) k = map_of (own req) k" if "k \<in> set (keys (own req))"
  proof -
    from that obtain v where "map_of (own req) k = Some v"
      by (auto simp: keys_def dest: weak_map_of_SomeI)
    then show ?thesis
      unfolding cases by simp
  qed
  show "set (keys (allData req)) =
           set (keys (ownEnumerable (params req))) \<union> set (keys (ownEnumerable (query req))) \<union>
           set (keys (ownEnumerable (body req))) \<union> set (keys (ownEnumerable (headers req))) \<union>
           set (keys (own req))"
    by (simp add: allData_def keys_spread) (simp add: keys_def)
  show "distinct (keys (allData req))"
    by (rule distinct_allData)
  show "d = allData req" if "CallRestController p q b h d \<in> set (fst (handlerBody self req))"
    for p q b h d
    using handlerBody_calls_restController [OF that] by simp
qed

theorem allData_later_source_wins_witness:
  "map_of (allData exampleRequest) ''host'' = Some (JStr ''proxy'')
   \<and> map_of (allData exampleRequest) ''email'' = Some (JStr ''h'')
   \<and> map_of (allData exampleRequest) ''limit'' = Some (JNum 11)
   \<and> map_of (allData exampleRequest) ''id'' = Some (JNum 8)
   \<and> map_of (ownEnumerable (params exampleRequest)) ''id'' = Some (JNum 7)
   \<and> map_of (allData exampleRequest) ''params'' = Some (JObj [(''id'', JNum 7)])
   \<and> set (keys (allData exampleRequest)) =
       {''id'', ''limit'', ''email'', ''host'', ''params'', ''user''}
   \<and> distinct (keys (allData exampleRequest))
   \<and> last (fst (handlerBody throwingController validRequest)) =
       CallRestController (params validRequest) (query validRequest) (body validRequest)
         (headers validRequest) (allData validRequest)"
proof -
  have wf: "distinct (keys (ownEnumerable (params exampleRequest)))"
    "distinct (keys (ownEnumerable (query exampleRequest)))"
    "distinct (keys (ownEnumerable (body exampleRequest)))"
    "distinct (keys (ownEnumerable (headers exampleRequest)))"
    "distinct (keys (own exampleRequest))"
    by (simp_all add: exampleRequest_def keys_def)
  have wf': "distinct (keys (ownEnumerable (params validRequest)))"
    "distinct (keys (ownEnumerable (query validRequest)))"
    "distinct (keys (ownEnumerable (body validRequest)))"
    "distinct (keys (ownEnumerable (headers validRequest)))"
    "distinct (keys (own validRequest))"
    by (simp_all add: validRequest_def keys_def)
  note wins = allData_later_source_wins [OF wf, where self = exampleController]
  have host: "map_of (allData exampleRequest) ''host'' = Some (JStr ''proxy'')"
    using wins [of "''host''"] by (simp add: exampleRequest_def)
  have email: "map_of (allData exampleRequest) ''email'' = Some (JStr ''h'')"
    using wins [of "''email''"] by (simp add: exampleRequest_def)
  have limit: "map_of (allData exampleRequest) ''limit'' = Some (JNum 11)"
    using wins [of "''limit''"] by (simp add: exampleRequest_def)
  have ident: "map_of (allData exampleRequest) ''id'' = Some (JNum 8)"
    using wins [of "''id''"] by (simp add: exampleRequest_def)
  have par: "map_of (allData exampleRequest) ''params'' = Some (JObj [(''id'', JNum 7)])"
    using wins [of "''params''"] by (simp add: exampleRequest_def keys_def)
  have low: "map_of (ownEnumerable (params exampleRequest)) ''id'' = Some (JNum 7)"
    by (simp add: exampleRequest_def)
  have names: "set (keys (allData exampleRequest)) =
       {''id'', ''limit'', ''email'', ''host'', ''params'', ''user''}"
    using wins [of "''id''"] by (auto simp: exampleRequest_def keys_def)
  from wins [of "''id''"] have once: "distinct (keys (allData exampleRequest))"
    by blast
  obtain d where run: "fst (handlerBody throwingController validRequest) =
       [NewController, MergeAllData (allData validRequest), CallValidate,
        CallJoiValidator (params validRequest) (query validRequest) (body validRequest),
        CallRestController (params validRequest) (query validRequest) (body validRequest)
          (headers validRequest) d]"
    unfolding handlerBody_valid [OF validRequest_valid(2)]
    by (simp add: respond_def throwingController_def)
  from allData_later_source_wins [OF wf', where self = throwingController] run
  have "d = allData validRequest"
    by auto
  with run have passed: "last (fst (handlerBody throwingController validRequest)) =
       CallRestController (params validRequest) (query validRequest) (body validRequest)
         (headers validRequest) (allData validRequest)"
    by simp
  from host email limit ident par low names once passed show ?thesis
    by blast
qed

end
